theory Spec2Isabelle
  imports Main "HOL-Library.Multiset"
begin

section \<open>Document directives of a ledger: \<^verbatim>\<open>beancount/ops/documents.py\<close>\<close>

text \<open>
  The module verifies the document directives of a ledger and finds dated files under
  the configured document roots. Its three functions are embedded below:
  \<^verbatim>\<open>verify_document_entries\<close>, \<^verbatim>\<open>find_documents\<close> and \<^verbatim>\<open>process_documents\<close>.

  Strings are \<^typ>\<open>string\<close>, one \<^typ>\<open>char\<close> per code point below 256. On that range the
  class \<^verbatim>\<open>\d\<close> of Python's \<^verbatim>\<open>re\<close> is exactly the ten digits \<^verbatim>\<open>0\<close> to \<^verbatim>\<open>9\<close>; file
  names with other decimal digits of Unicode are outside the model.

  A function that can raise returns a sum: \<open>Inl\<close> the exception, \<open>Inr\<close> the value. On
  arguments of the documented types the only exception is the \<^verbatim>\<open>ValueError\<close> of
  \<^verbatim>\<open>datetime.date\<close>; a loop stops at the first one, as the Python loop does.
\<close>

subsection \<open>Data\<close>

text \<open>
  \<^verbatim>\<open>Source\<close>, \<^verbatim>\<open>Document\<close> and \<^verbatim>\<open>DocumentError\<close> are named tuples. The directives other
  than \<^verbatim>\<open>Document\<close> are declared in \<^verbatim>\<open>beancount.core.data\<close>; the module only asks
  whether an entry is a \<^verbatim>\<open>Document\<close>, so they are kept abstract as \<open>Other d\<close>.
\<close>

datatype py_error = ValueError

datatype Source = Source (source_filename: string) (source_lineno: int)

datatype date = Date (year: int) (month: int) (day: int)

datatype 'd entry =
    Document (entry_source: Source) (entry_date: date) (entry_account: string)
      (entry_filename: string)
  | Other 'd

datatype 'd DocumentError =
  DocumentError (error_source: Source) (error_message: string) (error_entry: "'d entry option")

type_synonym 'd found = "'d entry list \<times> 'd DocumentError list"

text \<open>
  What the module reads from its surroundings: the functions of \<^verbatim>\<open>os.path\<close> (which depend
  on the platform, the working directory and the file system), and three functions of
  the package that are defined in other modules: \<^verbatim>\<open>account.walk\<close> (the tuples
  \<open>(root, account_name, dirs, files)\<close> it yields, in order), \<^verbatim>\<open>getters.get_accounts\<close>
  and \<^verbatim>\<open>data.entry_sortkey\<close>.
\<close>

record ('d, 'k) env =
  path_isabs :: "string \<Rightarrow> bool"
  path_dirname :: "string \<Rightarrow> string"
  path_join :: "string \<Rightarrow> string \<Rightarrow> string"
  path_normpath :: "string \<Rightarrow> string"
  path_abspath :: "string \<Rightarrow> string"
  path_exists :: "string \<Rightarrow> bool"
  account_walk :: "string \<Rightarrow> (string \<times> string \<times> string list \<times> string list) list"
  get_accounts :: "'d entry list \<Rightarrow> string set"
  entry_sortkey :: "'d entry \<Rightarrow> 'k"

text \<open>
  \<^verbatim>\<open>options_map\<close> is a dict; the module reads its keys \<^verbatim>\<open>"filename"\<close> and
  \<^verbatim>\<open>"documents"\<close>, which the parser always sets.
\<close>

record options_map =
  opt_filename :: string
  opt_documents :: "string list"

subsection \<open>The pattern of a dated file name\<close>

text \<open>
  \<^verbatim>\<open>re.match('(\d\d\d\d)-(\d\d)-(\d\d).(.*)', filename)\<close>. Every atom before the last
  group consumes one character; \<^verbatim>\<open>.\<close> is any character but a newline; \<^verbatim>\<open>(.*)\<close> takes
  the characters up to the first newline and may be empty; \<^verbatim>\<open>re.match\<close> anchors at the
  start only. The result holds the four groups.
\<close>

datatype atom = Digit | Lit char | Dot

definition is_digit :: "char \<Rightarrow> bool" where
  "is_digit c = (c \<in> set ''0123456789'')"

definition newline :: char where
  "newline = CHR 0x0A"

fun atom_matches :: "atom \<Rightarrow> char \<Rightarrow> bool" where
  "atom_matches Digit c = is_digit c"
| "atom_matches (Lit l) c = (c = l)"
| "atom_matches Dot c = (c \<noteq> newline)"

fun match_atoms :: "atom list \<Rightarrow> string \<Rightarrow> string option" where
  "match_atoms [] s = Some s"
| "match_atoms (a # as) [] = None"
| "match_atoms (a # as) (c # s) = (if atom_matches a c then match_atoms as s else None)"

definition date_atoms :: "atom list" where
  "date_atoms = [Digit, Digit, Digit, Digit, Lit CHR ''-'', Digit, Digit, Lit CHR ''-'',
                 Digit, Digit, Dot]"

definition re_match :: "string \<Rightarrow> (string \<times> string \<times> string \<times> string) option" where
  "re_match filename =
     (case match_atoms date_atoms filename of
        None \<Rightarrow> None
      | Some rest \<Rightarrow>
          Some (take 4 filename, take 2 (drop 5 filename), take 2 (drop 8 filename),
                takeWhile (\<lambda>c. c \<noteq> newline) rest))"

subsection \<open>\<^verbatim>\<open>int\<close> and \<^verbatim>\<open>datetime.date\<close>\<close>

text \<open>
  \<^verbatim>\<open>int\<close> of a string of decimal digits (leading zeros allowed), and the constructor of
  \<^verbatim>\<open>datetime.date\<close>, which raises \<^verbatim>\<open>ValueError\<close> unless \<open>1 \<le> year \<le> 9999\<close>,
  \<open>1 \<le> month \<le> 12\<close> and \<open>1 \<le> day \<le>\<close> the number of days of that month.
\<close>

definition digit_value :: "char \<Rightarrow> int" where
  "digit_value c = of_char c - 48"

definition py_int :: "string \<Rightarrow> int" where
  "py_int s = foldl (\<lambda>n c. 10 * n + digit_value c) 0 s"

definition is_leap :: "int \<Rightarrow> bool" where
  "is_leap y = (y mod 4 = 0 \<and> (y mod 100 \<noteq> 0 \<or> y mod 400 = 0))"

definition days_in_month :: "int \<Rightarrow> int \<Rightarrow> int" where
  "days_in_month y m =
     (if m = 2 \<and> is_leap y then 29
      else if m = 2 then 28
      else if m = 4 \<or> m = 6 \<or> m = 9 \<or> m = 11 then 30
      else 31)"

definition datetime_date :: "int \<Rightarrow> int \<Rightarrow> int \<Rightarrow> py_error + date" where
  "datetime_date y m d =
     (if \<not> (1 \<le> y \<and> y \<le> 9999) then Inl ValueError
      else if \<not> (1 \<le> m \<and> m \<le> 12) then Inl ValueError
      else if \<not> (1 \<le> d \<and> d \<le> days_in_month y m) then Inl ValueError
      else Inr (Date y m d))"

subsection \<open>\<^verbatim>\<open>verify_document_entries\<close>\<close>

text \<open>
  The loop over the entries, with the list \<^verbatim>\<open>errors\<close> it appends to. An entry that is
  not a \<^verbatim>\<open>Document\<close> is passed over; a \<^verbatim>\<open>Document\<close> whose file does not exist adds one
  error that holds the entry.
\<close>

fun verify_loop ::
  "(string \<Rightarrow> bool) \<Rightarrow> 'd entry list \<Rightarrow> 'd DocumentError list \<Rightarrow> 'd DocumentError list" where
  "verify_loop ex [] errors = errors"
| "verify_loop ex (Other d # rest) errors = verify_loop ex rest errors"
| "verify_loop ex (Document src dt acc fname # rest) errors =
     (if \<not> ex fname
      then verify_loop ex rest
             (errors @ [DocumentError src (''File does not exist: \"'' @ fname @ ''\"'')
                          (Some (Document src dt acc fname))])
      else verify_loop ex rest errors)"

definition verify_document_entries ::
  "('d, 'k) env \<Rightarrow> 'd entry list \<Rightarrow> 'd entry list \<times> 'd DocumentError list" where
  "verify_document_entries e entries = (entries, verify_loop (path_exists e) entries [])"

subsection \<open>\<^verbatim>\<open>find_documents\<close>\<close>

text \<open>
  \<^verbatim>\<open>accounts_only\<close> is \<^verbatim>\<open>None\<close> or a set of account names. The test
  \<^verbatim>\<open>accounts_only and not account_name in accounts_only\<close> is false for \<^verbatim>\<open>None\<close> and for
  the empty set.
\<close>

definition startswith :: "string \<Rightarrow> string \<Rightarrow> bool" where
  "startswith s p = (take (length p) s = p)"

definition filtered_out :: "string set option \<Rightarrow> string \<Rightarrow> bool" where
  "filtered_out accounts_only account_name =
     (case accounts_only of
        None \<Rightarrow> False
      | Some accounts \<Rightarrow> accounts \<noteq> {} \<and> account_name \<notin> accounts)"

definition accounts_of :: "string set option \<Rightarrow> string set" where
  "accounts_of accounts_only = (case accounts_only of None \<Rightarrow> {} | Some accounts \<Rightarrow> accounts)"

definition child_error :: "string \<Rightarrow> string \<Rightarrow> string \<Rightarrow> 'd DocumentError" where
  "child_error input_filename filename account_name =
     DocumentError (Source input_filename 0)
       (''Document ''  @ [CHR 0x27] @ filename @ [CHR 0x27] @ '' found in child account ''
          @ account_name @ ''.'')
       None"

definition parent_error :: "string \<Rightarrow> string \<Rightarrow> string \<Rightarrow> 'd DocumentError" where
  "parent_error input_filename filename account_name =
     DocumentError (Source input_filename 0)
       (''Document ''  @ [CHR 0x27] @ filename @ [CHR 0x27] @ '' found in parent account ''
          @ account_name @ ''.'')
       None"

definition root_error :: "string \<Rightarrow> string \<Rightarrow> 'd DocumentError" where
  "root_error input_filename directory =
     DocumentError (Source input_filename 0)
       (''Document root '' @ [CHR 0x27] @ directory @ [CHR 0x27] @ '' does not exist.'')
       None"

text \<open>
  The body of the loop over the files of one directory of the walk: the state is the
  pair of the lists \<^verbatim>\<open>entries\<close> and \<^verbatim>\<open>errors\<close>. \<^verbatim>\<open>datetime.date\<close> is called without a
  guard, so its \<^verbatim>\<open>ValueError\<close> leaves the function.
\<close>

definition file_step ::
  "('d, 'k) env \<Rightarrow> string \<Rightarrow> string set option \<Rightarrow> bool \<Rightarrow> string \<Rightarrow> string \<Rightarrow> string
     \<Rightarrow> 'd found \<Rightarrow> py_error + 'd found" where
  "file_step e input_filename accounts_only strict root account_name filename st =
     (case re_match filename of
        None \<Rightarrow> Inr st
      | Some (g1, g2, g3, g4) \<Rightarrow>
          if filtered_out accounts_only account_name then
            (if strict then
               (if \<exists>account \<in> accounts_of accounts_only. startswith account_name account
                then Inr (fst st, snd st @ [child_error input_filename filename account_name])
                else if \<exists>account \<in> accounts_of accounts_only. startswith account account_name
                then Inr (fst st, snd st @ [parent_error input_filename filename account_name])
                else Inr st)
             else Inr st)
          else
            (case datetime_date (py_int g1) (py_int g2) (py_int g3) of
               Inl err \<Rightarrow> Inl err
             | Inr dt \<Rightarrow>
                 Inr (fst st @ [Document (Source input_filename 0) dt account_name
                                  (path_join e root filename)],
                      snd st)))"

fun files_loop ::
  "('d, 'k) env \<Rightarrow> string \<Rightarrow> string set option \<Rightarrow> bool \<Rightarrow> string \<Rightarrow> string \<Rightarrow> string list
     \<Rightarrow> 'd found \<Rightarrow> py_error + 'd found" where
  "files_loop e input_filename accounts_only strict root account_name [] st = Inr st"
| "files_loop e input_filename accounts_only strict root account_name (filename # files) st =
     (case file_step e input_filename accounts_only strict root account_name filename st of
        Inl err \<Rightarrow> Inl err
      | Inr st' \<Rightarrow> files_loop e input_filename accounts_only strict root account_name files st')"

fun walk_loop ::
  "('d, 'k) env \<Rightarrow> string \<Rightarrow> string set option \<Rightarrow> bool
     \<Rightarrow> (string \<times> string \<times> string list \<times> string list) list
     \<Rightarrow> 'd found \<Rightarrow> py_error + 'd found" where
  "walk_loop e input_filename accounts_only strict [] st = Inr st"
| "walk_loop e input_filename accounts_only strict ((root, account_name, dirs, files) # rest) st =
     (case files_loop e input_filename accounts_only strict root account_name files st of
        Inl err \<Rightarrow> Inl err
      | Inr st' \<Rightarrow> walk_loop e input_filename accounts_only strict rest st')"

definition find_documents ::
  "('d, 'k) env \<Rightarrow> string \<Rightarrow> string \<Rightarrow> string set option \<Rightarrow> bool \<Rightarrow> py_error + 'd found" where
  "find_documents e directory0 input_filename accounts_only strict =
     (let directory =
            (if \<not> path_isabs e directory0
             then path_abspath e
                    (path_normpath e (path_join e (path_dirname e input_filename) directory0))
             else directory0)
      in if \<not> path_exists e directory
         then Inr ([], [root_error input_filename directory])
         else walk_loop e input_filename accounts_only strict (account_walk e directory)
                ([], []))"

subsection \<open>\<^verbatim>\<open>process_documents\<close>\<close>

text \<open>
  The loop over the configured directories calls \<^verbatim>\<open>find_documents\<close> with the accounts
  of the entries and the default \<^verbatim>\<open>strict=False\<close>, and extends the two lists.
  \<^verbatim>\<open>list.sort\<close> with a key is a stable sort, as \<^const>\<open>sort_key\<close> is.
\<close>

fun dirs_loop ::
  "('d, 'k) env \<Rightarrow> string \<Rightarrow> string set \<Rightarrow> string list \<Rightarrow> 'd found \<Rightarrow> py_error + 'd found" where
  "dirs_loop e filename accounts [] st = Inr st"
| "dirs_loop e filename accounts (directory # dirs) st =
     (case find_documents e directory filename (Some accounts) False of
        Inl err \<Rightarrow> Inl err
      | Inr (new_entries, new_errors) \<Rightarrow>
          dirs_loop e filename accounts dirs (fst st @ new_entries, snd st @ new_errors))"

definition process_documents ::
  "('d, 'k::linorder) env \<Rightarrow> 'd entry list \<Rightarrow> options_map \<Rightarrow> py_error + 'd found" where
  "process_documents e entries0 options =
     (let filename = opt_filename options;
          (entries, document_errors) = verify_document_entries e entries0;
          document_dirs = opt_documents options
      in case (if document_dirs \<noteq> []
               then dirs_loop e filename (get_accounts e entries) document_dirs ([], [])
               else Inr ([], [])) of
           Inl err \<Rightarrow> Inl err
         | Inr (autodoc_entries, autodoc_errors) \<Rightarrow>
             Inr (sort_key (entry_sortkey e) (entries @ autodoc_entries),
                  document_errors @ autodoc_errors))"

subsection \<open>The claims' own notions\<close>

text \<open>
  The shape of a document's file name in the words of the specification: four digits,
  a hyphen, two digits, a hyphen, two digits, one separator that is not a digit, and a
  remainder that is not empty. It is compared with \<^const>\<open>re_match\<close> below.
\<close>

definition spec_document_shape :: "string \<Rightarrow> bool" where
  "spec_document_shape filename =
     (11 < length filename \<and>
      list_all is_digit (take 4 filename) \<and> filename ! 4 = CHR ''-'' \<and>
      list_all is_digit (take 2 (drop 5 filename)) \<and> filename ! 7 = CHR ''-'' \<and>
      list_all is_digit (take 2 (drop 8 filename)) \<and>
      \<not> is_digit (filename ! 10))"

text \<open>
  The shape the pattern accepts: the same ten leading characters, one further character
  that is not a newline, and whatever follows.
\<close>

definition dated_filename :: "string \<Rightarrow> bool" where
  "dated_filename filename =
     (10 < length filename \<and>
      list_all is_digit (take 4 filename) \<and> filename ! 4 = CHR ''-'' \<and>
      list_all is_digit (take 2 (drop 5 filename)) \<and> filename ! 7 = CHR ''-'' \<and>
      list_all is_digit (take 2 (drop 8 filename)) \<and>
      filename ! 10 \<noteq> newline)"

text \<open>
  A walk without the files that are not of this shape.
\<close>

definition dated_only ::
  "(string \<times> string \<times> string list \<times> string list) list
     \<Rightarrow> (string \<times> string \<times> string list \<times> string list) list" where
  "dated_only walk =
     map (\<lambda>(root, account_name, dirs, files).
            (root, account_name, dirs, filter dated_filename files)) walk"

text \<open>
  The hierarchy relations in the words of the specification: an account is a strict
  descendant of a filtered account when its name starts with the filtered name and the
  separator, and a strict ancestor when a filtered name starts with its name and the
  separator.
\<close>

definition spec_descendant :: "char \<Rightarrow> string set \<Rightarrow> string \<Rightarrow> bool" where
  "spec_descendant sep accounts account_name =
     (\<exists>account \<in> accounts. startswith account_name (account @ [sep]))"

definition spec_ancestor :: "char \<Rightarrow> string set \<Rightarrow> string \<Rightarrow> bool" where
  "spec_ancestor sep accounts account_name =
     (\<exists>account \<in> accounts. startswith account (account_name @ [sep]))"

text \<open>
  A document whose file is missing, and the error the verifier owes it.
\<close>

definition missing_file :: "(string \<Rightarrow> bool) \<Rightarrow> 'd entry \<Rightarrow> bool" where
  "missing_file ex entry =
     (case entry of Document src dt acc fname \<Rightarrow> \<not> ex fname | Other d \<Rightarrow> False)"

definition missing_file_error :: "'d entry \<Rightarrow> 'd DocumentError" where
  "missing_file_error entry =
     DocumentError (entry_source entry)
       (''File does not exist: '' @ [CHR 0x22] @ entry_filename entry @ [CHR 0x22])
       (Some entry)"

text \<open>
  The directory the finder works on, in the words of the specification: an absolute
  argument as it is, any other joined to the directory of the ledger file, normalised
  and made absolute.
\<close>

definition resolved_directory :: "('d, 'k) env \<Rightarrow> string \<Rightarrow> string \<Rightarrow> string" where
  "resolved_directory e directory ledger =
     (if path_isabs e directory then directory
      else path_abspath e (path_normpath e (path_join e (path_dirname e ledger) directory)))"

text \<open>
  What one configured root contributes when the orchestrator calls the finder on it.
\<close>

definition found_entries :: "('d, 'k) env \<Rightarrow> string \<Rightarrow> string set \<Rightarrow> string \<Rightarrow> 'd entry list" where
  "found_entries e filename accounts directory =
     (case find_documents e directory filename (Some accounts) False of
        Inl err \<Rightarrow> [] | Inr r \<Rightarrow> fst r)"

definition found_errors ::
  "('d, 'k) env \<Rightarrow> string \<Rightarrow> string set \<Rightarrow> string \<Rightarrow> 'd DocumentError list" where
  "found_errors e filename accounts directory =
     (case find_documents e directory filename (Some accounts) False of
        Inl err \<Rightarrow> [] | Inr r \<Rightarrow> snd r)"

definition returns :: "py_error + 'a \<Rightarrow> bool" where
  "returns r = (case r of Inl err \<Rightarrow> False | Inr v \<Rightarrow> True)"

subsection \<open>A POSIX instance of the surroundings\<close>

text \<open>
  For evaluation on concrete inputs: the functions of \<^verbatim>\<open>posixpath\<close> as CPython defines
  them (\<^verbatim>\<open>abspath\<close> with the working directory as an argument), over a file system given
  by its existing paths and the tuples of the walk. The theorems below hold for every
  \<^typ>\<open>('d, 'k) env\<close>; this instance only supplies the concrete cases.
\<close>

definition posix_isabs :: "string \<Rightarrow> bool" where
  "posix_isabs s = startswith s ''/''"

definition posix_dirname :: "string \<Rightarrow> string" where
  "posix_dirname p =
     (let head = rev (dropWhile (\<lambda>c. c \<noteq> CHR ''/'') (rev p))
      in if head \<noteq> [] \<and> \<not> list_all (\<lambda>c. c = CHR ''/'') head
         then rev (dropWhile (\<lambda>c. c = CHR ''/'') (rev head))
         else head)"

definition posix_join :: "string \<Rightarrow> string \<Rightarrow> string" where
  "posix_join a b =
     (if startswith b ''/'' then b
      else if a = [] \<or> last a = CHR ''/'' then a @ b
      else a @ ''/'' @ b)"

fun split_sep :: "char \<Rightarrow> string \<Rightarrow> string list" where
  "split_sep s [] = [[]]"
| "split_sep s (c # cs) =
     (if c = s then [] # split_sep s cs
      else (case split_sep s cs of [] \<Rightarrow> [[c]] | x # xs \<Rightarrow> (c # x) # xs))"

fun join_sep :: "string \<Rightarrow> string list \<Rightarrow> string" where
  "join_sep s [] = []"
| "join_sep s [x] = x"
| "join_sep s (x # y # ys) = x @ s @ join_sep s (y # ys)"

definition norm_step :: "nat \<Rightarrow> string list \<Rightarrow> string \<Rightarrow> string list" where
  "norm_step initial_slashes new_comps component =
     (if component = [] \<or> component = ''.'' then new_comps
      else if component \<noteq> ''..'' \<or> (initial_slashes = 0 \<and> new_comps = [])
                \<or> (new_comps \<noteq> [] \<and> last new_comps = ''..'')
      then new_comps @ [component]
      else if new_comps \<noteq> [] then butlast new_comps
      else new_comps)"

definition posix_normpath :: "string \<Rightarrow> string" where
  "posix_normpath path =
     (if path = [] then ''.''
      else
        let initial_slashes =
              (if startswith path ''/''
               then (if startswith path ''//'' \<and> \<not> startswith path ''///'' then 2 else 1)
               else (0::nat));
            comps = foldl (norm_step initial_slashes) [] (split_sep CHR ''/'' path);
            joined = join_sep ''/'' comps;
            path' = (if initial_slashes \<noteq> 0
                     then replicate initial_slashes CHR ''/'' @ joined else joined)
        in if path' = [] then ''.'' else path')"

definition posix_abspath :: "string \<Rightarrow> string \<Rightarrow> string" where
  "posix_abspath cwd path =
     posix_normpath (if \<not> posix_isabs path then posix_join cwd path else path)"

text \<open>
  In the instance the other directives carry a date and an account (as an
  \<^verbatim>\<open>Open\<close> directive does); the accounts of the entries are the accounts they name, and
  the sort key is the date.
\<close>

definition date_key :: "date \<Rightarrow> int" where
  "date_key dt = (year dt * 100 + month dt) * 100 + day dt"

fun account_of :: "(date \<times> string) entry \<Rightarrow> string" where
  "account_of (Document src dt acc fname) = acc"
| "account_of (Other (dt, acc)) = acc"

fun key_of :: "(date \<times> string) entry \<Rightarrow> int" where
  "key_of (Document src dt acc fname) = date_key dt"
| "key_of (Other (dt, acc)) = date_key dt"

definition posix_env ::
  "string \<Rightarrow> string list \<Rightarrow> (string \<times> (string \<times> string \<times> string list \<times> string list) list) list
     \<Rightarrow> (date \<times> string, int) env" where
  "posix_env cwd existing walks =
     \<lparr> path_isabs = posix_isabs,
       path_dirname = posix_dirname,
       path_join = posix_join,
       path_normpath = posix_normpath,
       path_abspath = posix_abspath cwd,
       path_exists = (\<lambda>p. p \<in> set existing),
       account_walk = (\<lambda>p. case map_of walks p of None \<Rightarrow> [] | Some w \<Rightarrow> w),
       get_accounts = (\<lambda>entries. set (map account_of entries)),
       entry_sortkey = key_of \<rparr>"

text \<open>
  A ledger \<^verbatim>\<open>/home/joe/ledger.beancount\<close> with the document root \<^verbatim>\<open>documents\<close> beside
  it. The second tree has a file whose name matches the pattern and is not a date of
  the calendar.
\<close>

definition joe_walk :: "(string \<times> string \<times> string list \<times> string list) list" where
  "joe_walk =
     [(''/home/joe/documents/Assets'', ''Assets'', [''Bank''],
         [''2014-03-01.summary.pdf'']),
      (''/home/joe/documents/Assets/Bank'', ''Assets:Bank'', [''Checking'', ''CheckingOld''],
         []),
      (''/home/joe/documents/Assets/Bank/Checking'', ''Assets:Bank:Checking'', [''Sub''],
         [''2014-01-15.statement.pdf'', ''README.txt'', ''2014-01-0123'']),
      (''/home/joe/documents/Assets/Bank/Checking/Sub'', ''Assets:Bank:Checking:Sub'', [],
         [''2014-02-10.receipt.pdf'']),
      (''/home/joe/documents/Assets/Bank/CheckingOld'', ''Assets:Bank:CheckingOld'', [],
         [''2013-12-31.closing.pdf'']),
      (''/home/joe/documents/Expenses'', ''Expenses'', [], [''2014-01-20.taxes.pdf''])]"

definition feb_walk :: "(string \<times> string \<times> string list \<times> string list) list" where
  "feb_walk =
     [(''/home/joe/scans/Assets'', ''Assets'', [],
         [''2014-02-28.ok.pdf'', ''2014-02-31.memo.pdf'', ''2014-03-01.late.pdf''])]"

definition joe_env :: "(date \<times> string, int) env" where
  "joe_env =
     posix_env ''/home/joe''
       [''/home/joe/documents'', ''/home/joe/scans'', ''/home/joe/documents/Assets/Bank/Checking/2014-01-15.statement.pdf'']
       [(''/home/joe/documents'', joe_walk), (''/home/joe/scans'', feb_walk)]"

definition joe_ledger :: string where
  "joe_ledger = ''/home/joe/ledger.beancount''"

definition joe_entries :: "(date \<times> string) entry list" where
  "joe_entries =
     [Other (Date 2014 1 1, ''Assets:Bank:Checking''),
      Document (Source joe_ledger 12) (Date 2014 1 15) ''Assets:Bank:Checking''
        ''/home/joe/documents/Assets/Bank/Checking/2014-01-15.statement.pdf'',
      Other (Date 2014 2 1, ''Expenses''),
      Document (Source joe_ledger 20) (Date 2014 2 2) ''Expenses'' ''/home/joe/lost.pdf'']"

definition lost_entries :: "(date \<times> string) entry list" where
  "lost_entries =
     [Document (Source joe_ledger 30) (Date 2014 3 1) ''Expenses'' ''/home/joe/a.pdf'',
      Other (Date 2014 3 2, ''Expenses''),
      Document (Source joe_ledger 32) (Date 2014 3 3) ''Assets'' ''/home/joe/b.pdf'']"

definition joe_options :: options_map where
  "joe_options = \<lparr> opt_filename = joe_ledger, opt_documents = [''documents'', ''missing''] \<rparr>"

definition feb_options :: options_map where
  "feb_options = \<lparr> opt_filename = joe_ledger, opt_documents = [''documents'', ''scans''] \<rparr>"

section \<open>Properties\<close>

subsection \<open>The verifier\<close>

lemma verify_loop_append:
  "verify_loop ex entries errors =
     errors @ map missing_file_error (filter (missing_file ex) entries)"
  by (induction ex entries errors rule: verify_loop.induct)
     (simp_all add: missing_file_def missing_file_error_def)

text \<open>
  Claim C4. The verifier returns the entries it was given, unchanged, and its errors
  are, in the order of the entries, one error for each occurrence of a \<^verbatim>\<open>Document\<close>
  whose file does not exist, with the message \<^verbatim>\<open>File does not exist: "<path>"\<close>, the
  source of the entry and the entry itself attached. Documents whose file exists and
  all other directives are filtered out and so yield no error.
\<close>

theorem verify_document_entries_correct:
  "fst (verify_document_entries e entries) = entries \<and>
   snd (verify_document_entries e entries) =
     map (\<lambda>entry. DocumentError (entry_source entry)
                     (''File does not exist: '' @ [CHR 0x22] @ entry_filename entry @ [CHR 0x22])
                     (Some entry))
         (filter (missing_file (path_exists e)) entries)"
proof -
  have "map missing_file_error (filter (missing_file (path_exists e)) entries) =
        map (\<lambda>entry. DocumentError (entry_source entry)
                     (''File does not exist: '' @ [CHR 0x22] @ entry_filename entry @ [CHR 0x22])
                     (Some entry))
            (filter (missing_file (path_exists e)) entries)"
    by (rule map_cong) (simp_all add: missing_file_error_def)
  then show ?thesis
    by (simp add: verify_document_entries_def verify_loop_append)
qed

theorem verify_document_entries_correct_witness:
  "verify_document_entries joe_env joe_entries =
     (joe_entries,
      [DocumentError (Source ''/home/joe/ledger.beancount'' 20)
         ''File does not exist: \"/home/joe/lost.pdf\"''
         (Some (Document (Source ''/home/joe/ledger.beancount'' 20) (Date 2014 2 2)
                  ''Expenses'' ''/home/joe/lost.pdf''))])"
proof -
  have "missing_file (path_exists joe_env) (joe_entries ! 3)"
       "\<not> missing_file (path_exists joe_env) (joe_entries ! 0)"
       "\<not> missing_file (path_exists joe_env) (joe_entries ! 1)"
       "\<not> missing_file (path_exists joe_env) (joe_entries ! 2)"
    by (simp_all add: missing_file_def joe_env_def posix_env_def joe_entries_def)
  then have "filter (missing_file (path_exists joe_env)) joe_entries = [joe_entries ! 3]"
    by (simp add: joe_entries_def)
  with verify_document_entries_correct [of joe_env joe_entries] show ?thesis
    by (simp add: prod_eq_iff) (simp add: joe_entries_def joe_ledger_def)
qed

subsection \<open>The strict flag without a filter\<close>

lemma file_step_unfiltered:
  "\<not> filtered_out accounts_only account_name \<Longrightarrow>
   file_step e inp accounts_only True root account_name filename st =
   file_step e inp accounts_only False root account_name filename st"
  by (simp add: file_step_def split: option.splits)

lemma files_loop_unfiltered:
  "\<not> filtered_out accounts_only account_name \<Longrightarrow>
   files_loop e inp accounts_only True root account_name files st =
   files_loop e inp accounts_only False root account_name files st"
  by (induction files arbitrary: st) (simp_all add: file_step_unfiltered split: sum.splits)

lemma walk_loop_unfiltered:
  "(\<forall>a. \<not> filtered_out accounts_only a) \<Longrightarrow>
   walk_loop e inp accounts_only True walk st =
   walk_loop e inp accounts_only False walk st"
  by (induction e inp accounts_only True walk st rule: walk_loop.induct)
     (simp_all add: files_loop_unfiltered split: sum.splits)

text \<open>
  Claim C9. When the account filter is \<^verbatim>\<open>None\<close> or the empty set, the finder returns
  the same result (the same pair of directives and errors, or the same exception) with
  \<^verbatim>\<open>strict=True\<close> as with \<^verbatim>\<open>strict=False\<close>, for every directory, ledger path, file
  system and walk.
\<close>

theorem find_documents_strict_without_filter:
  "find_documents e directory inp None True = find_documents e directory inp None False \<and>
   find_documents e directory inp (Some {}) True = find_documents e directory inp (Some {}) False"
  by (simp add: find_documents_def Let_def walk_loop_unfiltered filtered_out_def)

subsection \<open>The directory of the search\<close>

lemma find_documents_resolved:
  "find_documents e directory inp accounts_only strict =
     (if path_exists e (resolved_directory e directory inp)
      then walk_loop e inp accounts_only strict
             (account_walk e (resolved_directory e directory inp)) ([], [])
      else Inr ([], [root_error inp (resolved_directory e directory inp)]))"
  by (simp add: find_documents_def resolved_directory_def Let_def)

lemma file_step_join:
  assumes "path_join e' = path_join e"
  shows "file_step e' inp acc strict root account filename st =
         file_step e inp acc strict root account filename st"
  unfolding file_step_def assms by (rule refl)

lemma files_loop_join:
  assumes "path_join e' = path_join e"
  shows "files_loop e' inp acc strict root account files st =
         files_loop e inp acc strict root account files st"
  by (induction files arbitrary: st) (simp_all add: file_step_join[OF assms] split: sum.splits)

lemma walk_loop_join:
  assumes "path_join e' = path_join e"
  shows "walk_loop e' inp acc strict walk st = walk_loop e inp acc strict walk st"
proof (induction walk arbitrary: st)
  case Nil
  show ?case by simp
next
  case (Cons t walk)
  obtain root account dirs files where t: "t = (root, account, dirs, files)"
    by (cases t) auto
  show ?case
    by (simp add: t files_loop_join[OF assms] Cons.IH split: sum.splits)
qed

lemma find_documents_same_surroundings:
  assumes "path_isabs e' = path_isabs e" "path_dirname e' = path_dirname e"
    "path_join e' = path_join e" "path_normpath e' = path_normpath e"
    "path_abspath e' = path_abspath e"
    "path_exists e' (resolved_directory e directory inp) =
      path_exists e (resolved_directory e directory inp)"
    "account_walk e' (resolved_directory e directory inp) =
      account_walk e (resolved_directory e directory inp)"
  shows "find_documents e' directory inp accounts_only strict =
      find_documents e directory inp accounts_only strict"
proof -
  have r: "resolved_directory e' directory inp = resolved_directory e directory inp"
    using assms(1-5) by (simp add: resolved_directory_def)
  show ?thesis
    unfolding find_documents_resolved r assms(6,7) walk_loop_join[OF assms(3)] by (rule refl)
qed

lemma startswith_slash: "startswith (CHR ''/'' # s) ''/''"
  by (simp add: startswith_def)

lemma posix_normpath_isabs: "posix_isabs p \<Longrightarrow> posix_isabs (posix_normpath p)"
proof -
  assume a: "posix_isabs p"
  then have ne: "p \<noteq> []" and sw: "startswith p ''/''"
    by (auto simp add: posix_isabs_def startswith_def)
  show ?thesis
  proof (cases "startswith p ''//'' \<and> \<not> startswith p ''///''")
    case True
    with ne sw show ?thesis
      by (simp add: posix_normpath_def Let_def posix_isabs_def numeral_2_eq_2 startswith_slash)
  next
    case False
    with ne sw show ?thesis
      by (auto simp add: posix_normpath_def Let_def posix_isabs_def startswith_slash)
  qed
qed

lemma posix_join_isabs: "posix_isabs a \<Longrightarrow> posix_isabs (posix_join a b)"
proof -
  assume a: "posix_isabs a"
  then obtain t where p: "a = CHR ''/'' # t"
    by (cases a) (simp_all add: posix_isabs_def startswith_def)
  show ?thesis
    by (simp add: p posix_join_def posix_isabs_def startswith_slash)
qed

lemma posix_abspath_isabs: "posix_isabs cwd \<Longrightarrow> posix_isabs (posix_abspath cwd p)"
  by (simp add: posix_abspath_def posix_normpath_isabs posix_join_isabs)

lemma posix_resolved_isabs:
  "posix_isabs cwd \<Longrightarrow>
      posix_isabs (resolved_directory (posix_env cwd existing walks) directory inp)"
  by (simp add: resolved_directory_def posix_env_def posix_abspath_isabs)

text \<open>
  Claim C8. An absolute \<^verbatim>\<open>directory\<close> is used as it is. Any other is joined to the
  directory of the ledger file, normalised and made absolute, in that order. The
  existence check and the walk are made on the resulting path: the finder is the
  missing-root error on that path when it does not exist and the walk of that path
  otherwise, and its result is the same in any surroundings with the same path
  functions that agree on the existence and the walk of that one path. Under the
  POSIX functions with an absolute working directory the resulting path is absolute.
\<close>

theorem find_documents_directory:
  "(path_isabs e directory \<longrightarrow> resolved_directory e directory inp = directory) \<and>
   (\<not> path_isabs e directory \<longrightarrow>
      resolved_directory e directory inp =
        path_abspath e (path_normpath e (path_join e (path_dirname e inp) directory))) \<and>
   find_documents e directory inp accounts_only strict =
     (if path_exists e (resolved_directory e directory inp)
      then walk_loop e inp accounts_only strict
             (account_walk e (resolved_directory e directory inp)) ([], [])
      else Inr ([], [root_error inp (resolved_directory e directory inp)])) \<and>
   (path_isabs e' = path_isabs e \<and> path_dirname e' = path_dirname e \<and>
    path_join e' = path_join e \<and> path_normpath e' = path_normpath e \<and>
    path_abspath e' = path_abspath e \<and>
    path_exists e' (resolved_directory e directory inp) =
      path_exists e (resolved_directory e directory inp) \<and>
    account_walk e' (resolved_directory e directory inp) =
      account_walk e (resolved_directory e directory inp) \<longrightarrow>
    find_documents e' directory inp accounts_only strict =
      find_documents e directory inp accounts_only strict) \<and>
   (posix_isabs cwd \<longrightarrow>
      posix_isabs (resolved_directory (posix_env cwd existing walks) directory inp))"
proof (intro conjI impI)
  show "find_documents e directory inp accounts_only strict =
     (if path_exists e (resolved_directory e directory inp)
      then walk_loop e inp accounts_only strict
             (account_walk e (resolved_directory e directory inp)) ([], [])
      else Inr ([], [root_error inp (resolved_directory e directory inp)]))"
    by (rule find_documents_resolved)
next
  assume "path_isabs e' = path_isabs e \<and> path_dirname e' = path_dirname e \<and>
    path_join e' = path_join e \<and> path_normpath e' = path_normpath e \<and>
    path_abspath e' = path_abspath e \<and>
    path_exists e' (resolved_directory e directory inp) =
      path_exists e (resolved_directory e directory inp) \<and>
    account_walk e' (resolved_directory e directory inp) =
      account_walk e (resolved_directory e directory inp)"
  then show "find_documents e' directory inp accounts_only strict =
      find_documents e directory inp accounts_only strict"
    by (intro find_documents_same_surroundings) simp_all
next
  assume "posix_isabs cwd"
  then show "posix_isabs (resolved_directory (posix_env cwd existing walks) directory inp)"
    by (rule posix_resolved_isabs)
qed (simp_all add: resolved_directory_def)

theorem find_documents_directory_witness:
  "resolved_directory joe_env ''./docs/../documents'' joe_ledger = ''/home/joe/documents'' \<and>
   resolved_directory joe_env ''/home/joe/./documents'' joe_ledger = ''/home/joe/./documents'' \<and>
   find_documents
     (joe_env\<lparr>path_exists := (\<lambda>p. p = ''/home/joe/documents''),
              account_walk := (\<lambda>p. if p = ''/home/joe/documents'' then joe_walk else [])\<rparr>)
     ''./docs/../documents'' joe_ledger None False =
   find_documents joe_env ''./docs/../documents'' joe_ledger None False \<and>
   posix_isabs (resolved_directory joe_env ''./docs/../documents'' joe_ledger)"
proof -
  let ?e' = "joe_env\<lparr>path_exists := (\<lambda>p. p = ''/home/joe/documents''),
              account_walk := (\<lambda>p. if p = ''/home/joe/documents'' then joe_walk else [])\<rparr>"
  have na: "\<not> path_isabs joe_env ''./docs/../documents''"
    by code_simp
  have ab: "path_isabs joe_env ''/home/joe/./documents''"
    by code_simp
  have r: "path_abspath joe_env (path_normpath joe_env
             (path_join joe_env (path_dirname joe_env joe_ledger) ''./docs/../documents'')) =
           ''/home/joe/documents''"
    by code_simp
  have ex: "path_exists joe_env ''/home/joe/documents''"
    by code_simp
  have wk: "account_walk joe_env ''/home/joe/documents'' = joe_walk"
    by (simp add: joe_env_def posix_env_def)
  have cw: "posix_isabs ''/home/joe''"
    by code_simp
  note t = find_documents_directory
    [where e = joe_env and inp = joe_ledger and accounts_only = None and strict = False
       and e' = ?e' and cwd = "''/home/joe''"
       and existing = "[''/home/joe/documents'', ''/home/joe/scans'',
            ''/home/joe/documents/Assets/Bank/Checking/2014-01-15.statement.pdf'']"
       and walks = "[(''/home/joe/documents'', joe_walk), (''/home/joe/scans'', feb_walk)]"]
  note rel = t [where directory = "''./docs/../documents''"]
  note abs = t [where directory = "''/home/joe/./documents''"]
  have 1: "resolved_directory joe_env ''./docs/../documents'' joe_ledger = ''/home/joe/documents''"
    using rel [THEN conjunct2, THEN conjunct1] na r by simp
  have 2: "resolved_directory joe_env ''/home/joe/./documents'' joe_ledger = ''/home/joe/./documents''"
    using abs [THEN conjunct1] ab by simp
  have 3: "find_documents ?e' ''./docs/../documents'' joe_ledger None False =
           find_documents joe_env ''./docs/../documents'' joe_ledger None False"
    by (rule rel [THEN conjunct2, THEN conjunct2, THEN conjunct2, THEN conjunct1, rule_format])
       (simp add: 1 ex wk)
  have 4: "posix_isabs (resolved_directory joe_env ''./docs/../documents'' joe_ledger)"
    using rel [THEN conjunct2, THEN conjunct2, THEN conjunct2, THEN conjunct2] cw
    by (simp add: joe_env_def)
  from 1 2 3 4 show ?thesis by simp
qed

subsection \<open>A document root that does not exist\<close>

text \<open>
  Claim C5. When the resolved root directory does not exist, the finder returns no
  directive and exactly one error, with the message
  \<^verbatim>\<open>Document root '<directory>' does not exist.\<close> on the resolved directory, the source
  location \<open>(input_filename, 0)\<close> and no entry attached. The walk is not consulted: the
  result is the same whatever the walk would yield.
\<close>

theorem find_documents_missing_root:
  assumes "\<not> path_exists e (resolved_directory e directory inp)"
  shows "find_documents e directory inp accounts_only strict =
     Inr ([], [DocumentError (Source inp 0)
                 (''Document root '' @ [CHR 0x27] @ resolved_directory e directory inp
                    @ [CHR 0x27] @ '' does not exist.'')
                 None])
   \<and> find_documents (e\<lparr>account_walk := w\<rparr>) directory inp accounts_only strict =
       find_documents e directory inp accounts_only strict"
proof -
  have r: "resolved_directory (e\<lparr>account_walk := w\<rparr>) directory inp =
           resolved_directory e directory inp"
    by (simp add: resolved_directory_def)
  from assms show ?thesis
    by (simp add: find_documents_resolved r root_error_def)
qed

theorem find_documents_missing_root_witness:
  "\<not> path_exists joe_env (resolved_directory joe_env ''nowhere/../gone'' joe_ledger) \<and>
   find_documents joe_env ''nowhere/../gone'' joe_ledger (Some {''Assets''}) True =
     Inr ([], [DocumentError (Source ''/home/joe/ledger.beancount'' 0)
                 ''Document root '/home/joe/gone' does not exist.'' None])"
proof -
  have r: "resolved_directory joe_env ''nowhere/../gone'' joe_ledger = ''/home/joe/gone''"
    by code_simp
  have h: "\<not> path_exists joe_env (resolved_directory joe_env ''nowhere/../gone'' joe_ledger)"
    unfolding r by code_simp
  from find_documents_missing_root [OF h, of "Some {''Assets''}" True "\<lambda>p. []"] h r
  show ?thesis
    by (simp add: joe_ledger_def)
qed

subsection \<open>The entry attached to an error\<close>

lemma file_step_entry_None:
  "file_step e inp acc strict root account filename st = Inr st' \<Longrightarrow>
   \<forall>err \<in> set (snd st). error_entry err = None \<Longrightarrow>
   \<forall>err \<in> set (snd st'). error_entry err = None"
  by (auto simp add: file_step_def child_error_def parent_error_def
           split: option.splits if_splits sum.splits)

lemma files_loop_entry_None:
  "files_loop e inp acc strict root account files st = Inr st' \<Longrightarrow>
   \<forall>err \<in> set (snd st). error_entry err = None \<Longrightarrow>
   \<forall>err \<in> set (snd st'). error_entry err = None"
proof (induction files arbitrary: st)
  case Nil
  then show ?case by simp
next
  case (Cons filename files)
  from Cons.prems(1) obtain st1 where
    s1: "file_step e inp acc strict root account filename st = Inr st1" and
    s2: "files_loop e inp acc strict root account files st1 = Inr st'"
    by (auto split: sum.splits)
  from file_step_entry_None[OF s1 Cons.prems(2)] Cons.IH[OF s2] show ?case by blast
qed

lemma walk_loop_entry_None:
  "walk_loop e inp acc strict walk st = Inr st' \<Longrightarrow>
   \<forall>err \<in> set (snd st). error_entry err = None \<Longrightarrow>
   \<forall>err \<in> set (snd st'). error_entry err = None"
proof (induction e inp acc strict walk st rule: walk_loop.induct)
  case (1 e inp acc strict st)
  then show ?case by simp
next
  case (2 e inp acc strict root account_name dirs files rest st)
  from 2(2) obtain st1 where
    s1: "files_loop e inp acc strict root account_name files st = Inr st1" and
    s2: "walk_loop e inp acc strict rest st1 = Inr st'"
    by (auto split: sum.splits)
  from files_loop_entry_None[OF s1 2(3)] have "\<forall>err\<in>set (snd st1). error_entry err = None" .
  from 2(1)[OF s1 s2 this] show ?case .
qed

lemma find_documents_entry_None:
  "find_documents e directory inp acc strict = Inr (entries, errors) \<Longrightarrow>
   \<forall>err \<in> set errors. error_entry err = None"
proof -
  assume a: "find_documents e directory inp acc strict = Inr (entries, errors)"
  show ?thesis
  proof (cases "path_exists e (resolved_directory e directory inp)")
    case True
    with a have "walk_loop e inp acc strict
             (account_walk e (resolved_directory e directory inp)) ([], []) = Inr (entries, errors)"
      by (simp add: find_documents_resolved)
    from walk_loop_entry_None[OF this] show ?thesis by simp
  next
    case False
    with a show ?thesis by (auto simp add: find_documents_resolved root_error_def)
  qed
qed

lemma verify_errors_attached:
  assumes "err \<in> set (snd (verify_document_entries e entries0))"
  shows "\<exists>src dt acc fname.
           err = DocumentError src
                   (''File does not exist: '' @ [CHR 0x22] @ fname @ [CHR 0x22])
                   (Some (Document src dt acc fname)) \<and>
           Document src dt acc fname \<in> set entries0 \<and> \<not> path_exists e fname"
proof -
  from assms obtain d where d: "d \<in> set entries0" "missing_file (path_exists e) d"
      and err: "err = missing_file_error d"
    by (auto simp add: verify_document_entries_def verify_loop_append)
  from d(2) obtain src dt acc fname where
    doc: "d = Document src dt acc fname" and "\<not> path_exists e fname"
    by (cases d) (simp_all add: missing_file_def)
  with d(1) err show ?thesis
    by (simp add: missing_file_error_def)
qed

lemma verify_errors_entries:
  "map error_entry (snd (verify_document_entries e entries0)) =
     map Some (filter (missing_file (path_exists e)) entries0)"
  by (simp add: verify_document_entries_def verify_loop_append missing_file_error_def comp_def)

lemma joe_strict_run:
  "find_documents joe_env ''documents'' joe_ledger (Some {''Assets:Bank:Checking''}) True =
     Inr ([Document (Source joe_ledger 0) (Date 2014 1 15) ''Assets:Bank:Checking''
             ''/home/joe/documents/Assets/Bank/Checking/2014-01-15.statement.pdf'',
           Document (Source joe_ledger 0) (Date 2014 1 1) ''Assets:Bank:Checking''
             ''/home/joe/documents/Assets/Bank/Checking/2014-01-0123''],
          [parent_error joe_ledger ''2014-03-01.summary.pdf'' ''Assets'',
           child_error joe_ledger ''2014-02-10.receipt.pdf'' ''Assets:Bank:Checking:Sub'',
           child_error joe_ledger ''2013-12-31.closing.pdf'' ''Assets:Bank:CheckingOld''])"
  by code_simp

text \<open>
  Claim C10. Every error the finder returns (the missing-root error and both errors of
  the strict mode) has no entry attached. Every error the verifier returns has attached
  the offending directive: the entries attached to its errors are, in order, exactly
  the \<^verbatim>\<open>Document\<close> entries of its input whose file does not exist, and each error has
  the source of the entry attached to it and the message on that entry's path.
\<close>

theorem document_error_entries:
  "(find_documents e directory inp accounts_only strict = Inr (entries, errors) \<longrightarrow>
      (\<forall>err \<in> set errors. error_entry err = None)) \<and>
   map error_entry (snd (verify_document_entries e entries0)) =
     map Some (filter (missing_file (path_exists e)) entries0) \<and>
   (\<forall>err \<in> set (snd (verify_document_entries e entries0)).
      \<exists>src dt acc fname.
        err = DocumentError src
                (''File does not exist: '' @ [CHR 0x22] @ fname @ [CHR 0x22])
                (Some (Document src dt acc fname)) \<and>
        Document src dt acc fname \<in> set entries0 \<and> \<not> path_exists e fname)"
  using find_documents_entry_None verify_errors_attached verify_errors_entries by blast

theorem document_error_entries_witness:
  "map error_entry
     [parent_error joe_ledger ''2014-03-01.summary.pdf'' ''Assets'',
      child_error joe_ledger ''2014-02-10.receipt.pdf'' ''Assets:Bank:Checking:Sub'',
      child_error joe_ledger ''2013-12-31.closing.pdf'' ''Assets:Bank:CheckingOld''
        :: (date \<times> string) DocumentError] = [None, None, None] \<and>
   map error_entry (snd (verify_document_entries joe_env lost_entries)) =
     [Some (Document (Source joe_ledger 30) (Date 2014 3 1) ''Expenses'' ''/home/joe/a.pdf''),
      Some (Document (Source joe_ledger 32) (Date 2014 3 3) ''Assets'' ''/home/joe/b.pdf'')] \<and>
   snd (verify_document_entries joe_env lost_entries) =
     [DocumentError (Source joe_ledger 30) ''File does not exist: \"/home/joe/a.pdf\"''
        (Some (Document (Source joe_ledger 30) (Date 2014 3 1) ''Expenses'' ''/home/joe/a.pdf'')),
      DocumentError (Source joe_ledger 32) ''File does not exist: \"/home/joe/b.pdf\"''
        (Some (Document (Source joe_ledger 32) (Date 2014 3 3) ''Assets'' ''/home/joe/b.pdf''))]"
proof -
  note t = document_error_entries [of joe_env "''documents''" joe_ledger
         "Some {''Assets:Bank:Checking''}" True _ _ lost_entries]
  from t joe_strict_run
  have 1: "\<forall>err \<in> set [parent_error joe_ledger ''2014-03-01.summary.pdf'' ''Assets'',
                 child_error joe_ledger ''2014-02-10.receipt.pdf'' ''Assets:Bank:Checking:Sub'',
                 child_error joe_ledger ''2013-12-31.closing.pdf'' ''Assets:Bank:CheckingOld''
                   :: (date \<times> string) DocumentError].
      error_entry err = None"
    by blast
  have f: "filter (missing_file (path_exists joe_env)) lost_entries =
     [Document (Source joe_ledger 30) (Date 2014 3 1) ''Expenses'' ''/home/joe/a.pdf'',
      Document (Source joe_ledger 32) (Date 2014 3 3) ''Assets'' ''/home/joe/b.pdf'']"
    by code_simp
  from t have 2: "map error_entry (snd (verify_document_entries joe_env lost_entries)) =
     map Some (filter (missing_file (path_exists joe_env)) lost_entries)"
    by blast
  have 3: "snd (verify_document_entries joe_env lost_entries) =
     [DocumentError (Source joe_ledger 30) ''File does not exist: \"/home/joe/a.pdf\"''
        (Some (Document (Source joe_ledger 30) (Date 2014 3 1) ''Expenses'' ''/home/joe/a.pdf'')),
      DocumentError (Source joe_ledger 32) ''File does not exist: \"/home/joe/b.pdf\"''
        (Some (Document (Source joe_ledger 32) (Date 2014 3 3) ''Assets'' ''/home/joe/b.pdf''))]"
    by code_simp
  from 1 2 3 show ?thesis
    unfolding f by simp
qed

subsection \<open>The orchestrator\<close>

text \<open>
  The loop over the roots returns exactly when every call of the finder returns, and
  then it has appended the results of the calls in the order of the roots.
\<close>

lemma returns_Inr: "returns r \<Longrightarrow> \<exists>v. r = Inr v"
  by (cases r) (simp_all add: returns_def)

lemma dirs_loop_returns:
  "\<forall>d \<in> set dirs. returns (find_documents e d filename (Some accounts) False) \<Longrightarrow>
   dirs_loop e filename accounts dirs st =
     Inr (fst st @ concat (map (found_entries e filename accounts) dirs),
          snd st @ concat (map (found_errors e filename accounts) dirs))"
proof (induction dirs arbitrary: st)
  case Nil
  then show ?case by simp
next
  case (Cons d dirs)
  from Cons.prems have "returns (find_documents e d filename (Some accounts) False)"
    by simp
  then obtain es errs where f: "find_documents e d filename (Some accounts) False = Inr (es, errs)"
    by (auto dest: returns_Inr)
  from Cons.prems have rest: "\<forall>d \<in> set dirs. returns (find_documents e d filename (Some accounts) False)"
    by simp
  show ?case
    by (simp add: f Cons.IH[OF rest] found_entries_def found_errors_def)
qed

lemma dirs_loop_raises:
  "dirs_loop e filename accounts dirs st = Inr st' \<Longrightarrow>
   \<forall>d \<in> set dirs. returns (find_documents e d filename (Some accounts) False)"
proof (induction dirs arbitrary: st)
  case Nil
  then show ?case by simp
next
  case (Cons d dirs)
  from Cons.prems obtain es errs where
    f: "find_documents e d filename (Some accounts) False = Inr (es, errs)" and
    l: "dirs_loop e filename accounts dirs (fst st @ es, snd st @ errs) = Inr st'"
    by (auto split: sum.splits)
  from f have "returns (find_documents e d filename (Some accounts) False)"
    by (simp add: returns_def)
  with Cons.IH[OF l] show ?case by simp
qed

lemma process_documents_returns:
  assumes "\<forall>d \<in> set (opt_documents options).
             returns (find_documents e d (opt_filename options) (Some (get_accounts e entries)) False)"
  shows "process_documents e entries options =
     Inr (sort_key (entry_sortkey e)
            (entries @ concat (map (found_entries e (opt_filename options) (get_accounts e entries))
                                 (opt_documents options))),
          snd (verify_document_entries e entries) @
            concat (map (found_errors e (opt_filename options) (get_accounts e entries))
                     (opt_documents options)))"
proof (cases "opt_documents options = []")
  case True
  then show ?thesis
    by (simp add: process_documents_def verify_document_entries_def Let_def)
next
  case False
  with dirs_loop_returns[OF assms, of "([], [])"] show ?thesis
    by (simp add: process_documents_def verify_document_entries_def Let_def)
qed

lemma process_documents_raises:
  assumes "process_documents e entries options = Inr r"
  shows "\<forall>d \<in> set (opt_documents options).
             returns (find_documents e d (opt_filename options) (Some (get_accounts e entries)) False)"
proof (cases "opt_documents options = []")
  case True
  then show ?thesis by simp
next
  case False
  with assms obtain st' where
    "dirs_loop e (opt_filename options) (get_accounts e entries) (opt_documents options) ([], []) = Inr st'"
    by (auto simp add: process_documents_def verify_document_entries_def Let_def split: sum.splits)
  from dirs_loop_raises[OF this] show ?thesis .
qed

lemma joe_process_run:
  "process_documents joe_env joe_entries joe_options =
     Inr ([Other (Date 2014 1 1, ''Assets:Bank:Checking''),
           Document (Source joe_ledger 0) (Date 2014 1 1) ''Assets:Bank:Checking''
             ''/home/joe/documents/Assets/Bank/Checking/2014-01-0123'',
           Document (Source joe_ledger 12) (Date 2014 1 15) ''Assets:Bank:Checking''
             ''/home/joe/documents/Assets/Bank/Checking/2014-01-15.statement.pdf'',
           Document (Source joe_ledger 0) (Date 2014 1 15) ''Assets:Bank:Checking''
             ''/home/joe/documents/Assets/Bank/Checking/2014-01-15.statement.pdf'',
           Document (Source joe_ledger 0) (Date 2014 1 20) ''Expenses''
             ''/home/joe/documents/Expenses/2014-01-20.taxes.pdf'',
           Other (Date 2014 2 1, ''Expenses''),
           Document (Source joe_ledger 20) (Date 2014 2 2) ''Expenses'' ''/home/joe/lost.pdf''],
          [missing_file_error
             (Document (Source joe_ledger 20) (Date 2014 2 2) ''Expenses'' ''/home/joe/lost.pdf''),
           root_error joe_ledger ''/home/joe/missing''])"
  by code_simp

lemma joe_finds_return:
  "\<forall>d \<in> set (opt_documents joe_options).
     returns (find_documents joe_env d (opt_filename joe_options)
                (Some (get_accounts joe_env joe_entries)) False)"
  by code_simp

lemma process_documents_returns_iff:
  "returns (process_documents e entries options) =
     (\<forall>d \<in> set (opt_documents options).
        returns (find_documents e d (opt_filename options)
                   (Some (get_accounts e entries)) False))"
proof
  assume "returns (process_documents e entries options)"
  then obtain r where "process_documents e entries options = Inr r"
    by (auto dest: returns_Inr)
  then show "\<forall>d \<in> set (opt_documents options).
        returns (find_documents e d (opt_filename options)
                   (Some (get_accounts e entries)) False)"
    by (rule process_documents_raises)
next
  assume "\<forall>d \<in> set (opt_documents options).
        returns (find_documents e d (opt_filename options)
                   (Some (get_accounts e entries)) False)"
  from process_documents_returns [OF this] show "returns (process_documents e entries options)"
    by (simp add: returns_def)
qed

text \<open>
  Claim C6. The orchestrator returns exactly when every call of the finder on a
  configured root returns (a call that raises leaves it without any output; see claim
  C3). Every pair it returns has an entry list whose length is the length of the input
  plus the number of directives the finder synthesized over all the roots, which holds
  exactly the input entries and those directives, and which is sorted non-decreasingly
  by \<^verbatim>\<open>entry_sortkey\<close>.
\<close>

theorem process_documents_entries:
  "returns (process_documents e entries options) =
     (\<forall>d \<in> set (opt_documents options).
        returns (find_documents e d (opt_filename options)
                   (Some (get_accounts e entries)) False)) \<and>
   (\<forall>out errs. process_documents e entries options = Inr (out, errs) \<longrightarrow>
      length out = length entries +
         (\<Sum>d\<leftarrow>opt_documents options.
             length (found_entries e (opt_filename options) (get_accounts e entries) d)) \<and>
      mset out = mset entries +
         mset (concat (map (found_entries e (opt_filename options) (get_accounts e entries))
                         (opt_documents options))) \<and>
      sorted (map (entry_sortkey e) out))"
proof (intro conjI allI impI)
  show "returns (process_documents e entries options) =
     (\<forall>d \<in> set (opt_documents options).
        returns (find_documents e d (opt_filename options)
                   (Some (get_accounts e entries)) False))"
    by (rule process_documents_returns_iff)
next
  fix out errs
  assume r: "process_documents e entries options = Inr (out, errs)"
  note h = process_documents_raises [OF r]
  from r have o: "out = sort_key (entry_sortkey e)
            (entries @ concat (map (found_entries e (opt_filename options) (get_accounts e entries))
                                 (opt_documents options)))"
    by (simp add: process_documents_returns [OF h])
  show "length out = length entries +
         (\<Sum>d\<leftarrow>opt_documents options.
             length (found_entries e (opt_filename options) (get_accounts e entries) d))"
    by (simp add: o length_concat comp_def)
  show "mset out = mset entries +
         mset (concat (map (found_entries e (opt_filename options) (get_accounts e entries))
                         (opt_documents options)))"
    by (simp add: o)
  show "sorted (map (entry_sortkey e) out)"
    by (simp add: o)
qed

theorem process_documents_entries_witness:
  "returns (process_documents joe_env joe_entries joe_options) \<and>
   length (fst (projr (process_documents joe_env joe_entries joe_options))) = 4 + (3 + 0) \<and>
   sorted (map key_of (fst (projr (process_documents joe_env joe_entries joe_options)))) \<and>
   map key_of (fst (projr (process_documents joe_env joe_entries joe_options))) =
     [20140101, 20140101, 20140115, 20140115, 20140120, 20140201, 20140202]"
proof -
  note t = process_documents_entries [of joe_env joe_entries joe_options]
  have r: "returns (process_documents joe_env joe_entries joe_options)"
    using t [THEN conjunct1] joe_finds_return by blast
  have l1: "length (found_entries joe_env joe_ledger (get_accounts joe_env joe_entries)
                      ''documents'') = 3"
    by code_simp
  have l2: "length (found_entries joe_env joe_ledger (get_accounts joe_env joe_entries)
                      ''missing'') = 0"
    by code_simp
  have k: "entry_sortkey joe_env = key_of"
    by (simp add: joe_env_def posix_env_def)
  have n: "length joe_entries = 4"
    by (simp add: joe_entries_def)
  obtain out errs where p: "process_documents joe_env joe_entries joe_options = Inr (out, errs)"
    using joe_process_run by blast
  have o: "opt_documents joe_options = [''documents'', ''missing'']"
          "opt_filename joe_options = joe_ledger"
    by (simp_all add: joe_options_def)
  from t [THEN conjunct2, rule_format, OF p] l1 l2 k n
  have "length out = 4 + (3 + 0) \<and> sorted (map key_of out)"
    by (simp add: o)
  moreover have "map key_of (fst (projr (process_documents joe_env joe_entries joe_options))) =
     [20140101, 20140101, 20140115, 20140115, 20140120, 20140201, 20140202]"
    by code_simp
  ultimately show ?thesis
    using r by (simp add: p)
qed

text \<open>
  Claim C7. In every pair the orchestrator returns, the error list is the verifier's
  errors followed by the finder's errors, root by root in the order of the
  configuration.
\<close>

theorem process_documents_errors:
  assumes "process_documents e entries options = Inr (out, errs)"
  shows "errs =
           snd (verify_document_entries e entries) @
           concat (map (found_errors e (opt_filename options) (get_accounts e entries))
                     (opt_documents options))"
  using assms by (simp add: process_documents_returns [OF process_documents_raises [OF assms]])

theorem process_documents_errors_witness:
  "snd (projr (process_documents joe_env joe_entries joe_options)) =
      [missing_file_error
         (Document (Source joe_ledger 20) (Date 2014 2 2) ''Expenses'' ''/home/joe/lost.pdf'')] @
      ([] @ [root_error joe_ledger ''/home/joe/missing''])"
proof -
  have v: "snd (verify_document_entries joe_env joe_entries) =
     [missing_file_error
        (Document (Source joe_ledger 20) (Date 2014 2 2) ''Expenses'' ''/home/joe/lost.pdf'')]"
    by code_simp
  have e1: "found_errors joe_env joe_ledger (get_accounts joe_env joe_entries) ''documents'' = []"
    by code_simp
  have e2: "found_errors joe_env joe_ledger (get_accounts joe_env joe_entries) ''missing'' =
     [root_error joe_ledger ''/home/joe/missing'']"
    by code_simp
  obtain out errs where p: "process_documents joe_env joe_entries joe_options = Inr (out, errs)"
    using joe_process_run by blast
  have o: "opt_documents joe_options = [''documents'', ''missing'']"
          "opt_filename joe_options = joe_ledger"
    by (simp_all add: joe_options_def)
  from process_documents_errors [OF p] v e1 e2 show ?thesis
    by (simp add: p o)
qed

subsection \<open>A file name that is not a date of the calendar\<close>

text \<open>
  Claim C3 says that no exception leaves the finder or the orchestrator. The code calls
  \<^verbatim>\<open>datetime.date\<close> on the three groups without a guard. On the file
  \<^verbatim>\<open>2014-02-31.memo.pdf\<close> in the directory of the account \<^verbatim>\<open>Assets\<close> the finder raises
  \<^verbatim>\<open>ValueError\<close>, and so does the orchestrator on a ledger that names that account.
\<close>

theorem find_documents_invalid_date_raises:
  "re_match ''2014-02-31.memo.pdf'' = Some (''2014'', ''02'', ''31'', ''memo.pdf'') \<and>
   datetime_date 2014 2 31 = Inl ValueError \<and>
   find_documents joe_env ''scans'' joe_ledger None False = Inl ValueError \<and>
   process_documents joe_env [Other (Date 2014 1 1, ''Assets'')] feb_options = Inl ValueError"
  by code_simp

subsection \<open>Which file names are documents\<close>

lemma match_atoms_length:
  "match_atoms as s = Some rest \<Longrightarrow> length as \<le> length s"
  by (induction as s rule: match_atoms.induct) (simp_all split: if_splits)

lemma long_list:
  "10 < length s \<Longrightarrow>
   \<exists>c0 c1 c2 c3 c4 c5 c6 c7 c8 c9 c10 rest.
     s = c0 # c1 # c2 # c3 # c4 # c5 # c6 # c7 # c8 # c9 # c10 # rest"
proof -
  assume "10 < length s"
  then have "Suc (Suc (Suc (Suc (Suc (Suc (Suc (Suc (Suc (Suc (Suc 0)))))))))) \<le> length s"
    by simp
  then show ?thesis
    unfolding Suc_le_length_iff by blast
qed

lemma re_match_dated: "(re_match filename \<noteq> None) = dated_filename filename"
proof -
  have "(re_match filename \<noteq> None) = (match_atoms date_atoms filename \<noteq> None)"
    by (simp add: re_match_def split: option.splits)
  also have "\<dots> = dated_filename filename"
  proof (cases "10 < length filename")
    case False
    have "match_atoms date_atoms filename = None"
    proof (cases "match_atoms date_atoms filename")
      case None
      then show ?thesis .
    next
      case (Some rest)
      from match_atoms_length[OF this] have "11 \<le> length filename"
        by (simp add: date_atoms_def)
      with False show ?thesis by simp
    qed
    with False show ?thesis
      by (simp add: dated_filename_def)
  next
    case True
    from long_list[OF this] obtain c0 c1 c2 c3 c4 c5 c6 c7 c8 c9 c10 rest where
      f: "filename = c0 # c1 # c2 # c3 # c4 # c5 # c6 # c7 # c8 # c9 # c10 # rest"
      by blast
    show ?thesis
      unfolding f by (simp add: dated_filename_def date_atoms_def)
  qed
  finally show ?thesis .
qed

lemma re_match_groups:
  "re_match filename = Some (g1, g2, g3, g4) \<Longrightarrow>
     g1 = take 4 filename \<and> g2 = take 2 (drop 5 filename) \<and> g3 = take 2 (drop 8 filename)"
  by (auto simp add: re_match_def split: option.splits)

lemma file_step_not_dated:
  "\<not> dated_filename filename \<Longrightarrow>
   file_step e inp accounts_only strict root account_name filename st = Inr st"
proof -
  assume "\<not> dated_filename filename"
  then have "\<not> (re_match filename \<noteq> None)"
    unfolding re_match_dated .
  then have "re_match filename = None"
    by blast
  then show ?thesis
    by (simp add: file_step_def)
qed

lemma file_step_dated:
  assumes "dated_filename filename" "\<not> filtered_out accounts_only account_name"
  shows "file_step e inp accounts_only strict root account_name filename st =
     (case datetime_date (py_int (take 4 filename)) (py_int (take 2 (drop 5 filename)))
             (py_int (take 2 (drop 8 filename))) of
        Inl err \<Rightarrow> Inl err
      | Inr dt \<Rightarrow>
          Inr (fst st @ [Document (Source inp 0) dt account_name (path_join e root filename)],
               snd st))"
proof -
  from assms(1) have "re_match filename \<noteq> None"
    unfolding re_match_dated .
  then obtain g1 g2 g3 g4 where m: "re_match filename = Some (g1, g2, g3, g4)"
    by auto
  from re_match_groups [OF m] assms(2) show ?thesis
    by (simp add: file_step_def m)
qed

lemma files_loop_dated_only:
  "files_loop e inp accounts_only strict root account_name (filter dated_filename files) st =
   files_loop e inp accounts_only strict root account_name files st"
proof (induction files arbitrary: st)
  case Nil
  show ?case by simp
next
  case (Cons f files)
  show ?case
  proof (cases "dated_filename f")
    case True
    then show ?thesis
      by (simp add: Cons.IH split: sum.splits)
  next
    case False
    then show ?thesis
      by (simp add: file_step_not_dated Cons.IH)
  qed
qed

lemma walk_loop_dated_only:
  "walk_loop e inp accounts_only strict (dated_only walk) st =
   walk_loop e inp accounts_only strict walk st"
proof (induction walk arbitrary: st)
  case Nil
  show ?case by (simp add: dated_only_def)
next
  case (Cons t walk)
  obtain root account dirs files where t: "t = (root, account, dirs, files)"
    by (cases t) auto
  have d: "dated_only ((root, account, dirs, files) # walk) =
           (root, account, dirs, filter dated_filename files) # dated_only walk"
    by (simp add: dated_only_def)
  show ?case
    unfolding t d by (simp add: files_loop_dated_only Cons.IH split: sum.splits)
qed

lemma find_documents_dated_only:
  "find_documents (e\<lparr>account_walk := \<lambda>p. dated_only (account_walk e p)\<rparr>)
     directory inp accounts_only strict =
   find_documents e directory inp accounts_only strict"
proof -
  let ?e' = "e\<lparr>account_walk := \<lambda>p. dated_only (account_walk e p)\<rparr>"
  have r: "resolved_directory ?e' directory inp = resolved_directory e directory inp"
    by (simp add: resolved_directory_def)
  have j: "path_join ?e' = path_join e"
    by simp
  show ?thesis
    unfolding find_documents_resolved r walk_loop_join [OF j]
    by (simp add: walk_loop_dated_only)
qed

text \<open>
  Claim C1, as the code has it. A file name is recognised (the pattern matches) exactly
  when it has at least eleven characters, of which the first ten are four digits, a
  hyphen, two digits, a hyphen and two digits, and the eleventh is any character other
  than a newline: a digit is accepted as the separator, and nothing need follow it. A
  name that is not of this shape is passed over: it leaves the directives and the
  errors as they are, and the finder gives the same result on the walk without such
  names. A recognised name in an account that the filter lets through
  yields the directive built from its date, or the exception of an invalid date.
\<close>

theorem find_documents_dated_filename:
  "(re_match filename \<noteq> None) = dated_filename filename \<and>
   (\<not> dated_filename filename \<longrightarrow>
      file_step e inp accounts_only strict root account_name filename st = Inr st) \<and>
   (dated_filename filename \<and> \<not> filtered_out accounts_only account_name \<longrightarrow>
      file_step e inp accounts_only strict root account_name filename st =
        (case datetime_date (py_int (take 4 filename)) (py_int (take 2 (drop 5 filename)))
                (py_int (take 2 (drop 8 filename))) of
           Inl err \<Rightarrow> Inl err
         | Inr dt \<Rightarrow>
             Inr (fst st @ [Document (Source inp 0) dt account_name (path_join e root filename)],
                  snd st))) \<and>
   find_documents (e\<lparr>account_walk := \<lambda>p. dated_only (account_walk e p)\<rparr>)
       directory inp accounts_only strict =
     find_documents e directory inp accounts_only strict"
proof (intro conjI impI)
  show "(re_match filename \<noteq> None) = dated_filename filename"
    by (rule re_match_dated)
next
  assume "\<not> dated_filename filename"
  then show "file_step e inp accounts_only strict root account_name filename st = Inr st"
    by (rule file_step_not_dated)
next
  assume "dated_filename filename \<and> \<not> filtered_out accounts_only account_name"
  then show "file_step e inp accounts_only strict root account_name filename st =
        (case datetime_date (py_int (take 4 filename)) (py_int (take 2 (drop 5 filename)))
                (py_int (take 2 (drop 8 filename))) of
           Inl err \<Rightarrow> Inl err
         | Inr dt \<Rightarrow>
             Inr (fst st @ [Document (Source inp 0) dt account_name (path_join e root filename)],
                  snd st))"
    by (intro file_step_dated) simp_all
next
  show "find_documents (e\<lparr>account_walk := \<lambda>p. dated_only (account_walk e p)\<rparr>)
       directory inp accounts_only strict =
     find_documents e directory inp accounts_only strict"
    by (rule find_documents_dated_only)
qed

theorem find_documents_dated_filename_witness:
  "dated_filename ''2014-01-0123'' \<and> dated_filename ''2014-01-01.'' \<and>
   \<not> dated_filename ''README.txt'' \<and>
   file_step joe_env joe_ledger None False ''/home/joe/documents/Assets/Bank/Checking''
     ''Assets:Bank:Checking'' ''README.txt'' ([], []) = Inr ([], []) \<and>
   file_step joe_env joe_ledger None False ''/home/joe/documents/Assets/Bank/Checking''
     ''Assets:Bank:Checking'' ''2014-01-0123'' ([], []) =
     Inr ([Document (Source joe_ledger 0) (Date 2014 1 1) ''Assets:Bank:Checking''
             ''/home/joe/documents/Assets/Bank/Checking/2014-01-0123''], [])"
proof -
  note t = find_documents_dated_filename
    [where e = joe_env and inp = joe_ledger and accounts_only = None and strict = False
       and root = "''/home/joe/documents/Assets/Bank/Checking''"
       and account_name = "''Assets:Bank:Checking''" and st = "([], [])"
       and directory = "''documents''"]
  have m1: "re_match ''2014-01-0123'' \<noteq> None" and m2: "re_match ''2014-01-01.'' \<noteq> None"
    and m3: "re_match ''README.txt'' = None"
    by code_simp+
  have d1: "dated_filename ''2014-01-0123''"
    using t [where filename = "''2014-01-0123''", THEN conjunct1] m1 by simp
  have d2: "dated_filename ''2014-01-01.''"
    using t [where filename = "''2014-01-01.''", THEN conjunct1] m2 by simp
  have d3: "\<not> dated_filename ''README.txt''"
    using t [where filename = "''README.txt''", THEN conjunct1] m3 by simp
  have f: "\<not> filtered_out None ''Assets:Bank:Checking''"
    by (simp add: filtered_out_def)
  have dt: "datetime_date (py_int ''2014'') (py_int ''01'') (py_int ''01'') =
            Inr (Date 2014 1 1)"
    by code_simp
  have j: "path_join joe_env ''/home/joe/documents/Assets/Bank/Checking'' ''2014-01-0123'' =
           ''/home/joe/documents/Assets/Bank/Checking/2014-01-0123''"
    by code_simp
  have s3: "file_step joe_env joe_ledger None False ''/home/joe/documents/Assets/Bank/Checking''
     ''Assets:Bank:Checking'' ''README.txt'' ([], []) = Inr ([], [])"
    using t [where filename = "''README.txt''", THEN conjunct2, THEN conjunct1] d3 by blast
  have s1: "file_step joe_env joe_ledger None False ''/home/joe/documents/Assets/Bank/Checking''
     ''Assets:Bank:Checking'' ''2014-01-0123'' ([], []) =
     Inr ([Document (Source joe_ledger 0) (Date 2014 1 1) ''Assets:Bank:Checking''
             ''/home/joe/documents/Assets/Bank/Checking/2014-01-0123''], [])"
    using t [where filename = "''2014-01-0123''", THEN conjunct2, THEN conjunct2, THEN conjunct1]
      d1 f by (simp add: dt j)
  from d1 d2 d3 s3 s1 show ?thesis
    by blast
qed

text \<open>
  The claim as the specification words it fails in both directions: the pattern accepts
  \<^verbatim>\<open>2014-01-01.\<close>, where nothing follows the separator, and \<^verbatim>\<open>2014-01-0123\<close>, where the
  separator is a digit (and a directive is made of it), and it rejects a name whose
  separator is a newline.
\<close>

theorem spec_document_shape_counterexample:
  "re_match ''2014-01-01.'' \<noteq> None \<and> \<not> spec_document_shape ''2014-01-01.'' \<and>
   re_match ''2014-01-0123'' \<noteq> None \<and> \<not> spec_document_shape ''2014-01-0123'' \<and>
   file_step joe_env joe_ledger None False ''/home/joe/documents/Assets/Bank/Checking''
     ''Assets:Bank:Checking'' ''2014-01-0123'' ([], []) =
     Inr ([Document (Source joe_ledger 0) (Date 2014 1 1) ''Assets:Bank:Checking''
             ''/home/joe/documents/Assets/Bank/Checking/2014-01-0123''], []) \<and>
   re_match (''2014-01-01'' @ [CHR 0x0A] @ ''x'') = None \<and>
   spec_document_shape (''2014-01-01'' @ [CHR 0x0A] @ ''x'')"
  by code_simp

subsection \<open>The strict mode\<close>

lemma startswith_append: "startswith s (a @ b) \<Longrightarrow> startswith s a"
proof -
  assume "startswith s (a @ b)"
  then have t: "take (length a + length b) s = a @ b"
    by (simp add: startswith_def)
  have "take (length a) s = take (length a) (take (length a + length b) s)"
    by (simp add: min_def)
  also have "\<dots> = a"
    by (simp add: t)
  finally show ?thesis
    by (simp add: startswith_def)
qed

lemma spec_descendant_prefix:
  "spec_descendant sep accounts account_name \<Longrightarrow>
   \<exists>account \<in> accounts. startswith account_name account"
  unfolding spec_descendant_def using startswith_append by blast

lemma spec_ancestor_prefix:
  "spec_ancestor sep accounts account_name \<Longrightarrow>
   \<exists>account \<in> accounts. startswith account account_name"
  unfolding spec_ancestor_def using startswith_append by blast

lemma file_step_strict:
  assumes "dated_filename filename" "accounts \<noteq> {}" "account_name \<notin> accounts"
  shows "file_step e inp (Some accounts) True root account_name filename st =
     (if \<exists>account \<in> accounts. startswith account_name account
      then Inr (fst st, snd st @ [child_error inp filename account_name])
      else if \<exists>account \<in> accounts. startswith account account_name
      then Inr (fst st, snd st @ [parent_error inp filename account_name])
      else Inr st)"
proof -
  from assms(1) have "re_match filename \<noteq> None"
    unfolding re_match_dated .
  then obtain g1 g2 g3 g4 where m: "re_match filename = Some (g1, g2, g3, g4)"
    by auto
  from assms(2,3) show ?thesis
    by (simp add: file_step_def m filtered_out_def accounts_of_def)
qed

lemma find_documents_single_file:
  assumes "path_exists e (resolved_directory e directory inp)"
    "account_walk e (resolved_directory e directory inp) = [(root, account_name, dirs, [filename])]"
  shows "find_documents e directory inp accounts_only strict =
         file_step e inp accounts_only strict root account_name filename ([], [])"
  using assms by (simp add: find_documents_resolved split: sum.splits)

text \<open>
  Where the relations of the specification hold, the code agrees with it: in strict
  mode with a non-empty filter, a recognised file in an account that is not in the
  filter gets one child-account error and no directive when the account is a strict
  descendant of a filtered account, and one parent-account error and no directive when
  it is a strict ancestor of one and no filtered name is a prefix of its name. On a
  tree whose walk is one directory with that one file, this step is the whole result
  of the finder.
\<close>

lemma file_step_strict_related:
  assumes "dated_filename filename" "accounts \<noteq> {}" "account_name \<notin> accounts"
  shows "(spec_descendant sep accounts account_name \<longrightarrow>
       file_step e inp (Some accounts) True root account_name filename st =
         Inr (fst st, snd st @ [child_error inp filename account_name])) \<and>
    (spec_ancestor sep accounts account_name \<and>
     \<not> (\<exists>account \<in> accounts. startswith account_name account) \<longrightarrow>
       file_step e inp (Some accounts) True root account_name filename st =
         Inr (fst st, snd st @ [parent_error inp filename account_name])) \<and>
    (path_exists e (resolved_directory e directory inp) \<and>
     account_walk e (resolved_directory e directory inp) =
       [(root, account_name, dirs, [filename])] \<longrightarrow>
       find_documents e directory inp (Some accounts) True =
         file_step e inp (Some accounts) True root account_name filename ([], []))"
proof (intro conjI impI)
  assume "spec_descendant sep accounts account_name"
  from spec_descendant_prefix [OF this]
  show "file_step e inp (Some accounts) True root account_name filename st =
         Inr (fst st, snd st @ [child_error inp filename account_name])"
    by (simp add: file_step_strict [OF assms])
next
  assume a: "spec_ancestor sep accounts account_name \<and>
     \<not> (\<exists>account \<in> accounts. startswith account_name account)"
  then have "\<exists>account \<in> accounts. startswith account account_name"
    by (intro spec_ancestor_prefix [of sep]) simp
  with a show "file_step e inp (Some accounts) True root account_name filename st =
         Inr (fst st, snd st @ [parent_error inp filename account_name])"
    by (simp add: file_step_strict [OF assms])
next
  assume "path_exists e (resolved_directory e directory inp) \<and>
     account_walk e (resolved_directory e directory inp) =
       [(root, account_name, dirs, [filename])]"
  then show "find_documents e directory inp (Some accounts) True =
         file_step e inp (Some accounts) True root account_name filename ([], [])"
    by (intro find_documents_single_file) simp_all
qed

lemma file_step_strict_examples:
  "file_step joe_env joe_ledger (Some {''Assets:Bank:Checking''}) True
     ''/home/joe/documents/Assets/Bank/Checking/Sub'' ''Assets:Bank:Checking:Sub''
     ''2014-02-10.receipt.pdf'' ([], []) =
     Inr ([], [DocumentError (Source joe_ledger 0)
                 ''Document '2014-02-10.receipt.pdf' found in child account Assets:Bank:Checking:Sub.''
                 None]) \<and>
   file_step joe_env joe_ledger (Some {''Assets:Bank:Checking''}) True
     ''/home/joe/documents/Assets'' ''Assets''
     ''2014-03-01.summary.pdf'' ([], []) =
     Inr ([], [DocumentError (Source joe_ledger 0)
                 ''Document '2014-03-01.summary.pdf' found in parent account Assets.''
                 None])"
proof -
  have d1: "dated_filename ''2014-02-10.receipt.pdf''"
    and d2: "dated_filename ''2014-03-01.summary.pdf''"
    by code_simp+
  have ne: "{''Assets:Bank:Checking''} \<noteq> ({} :: string set)"
    by simp
  have n1: "''Assets:Bank:Checking:Sub'' \<notin> {''Assets:Bank:Checking''}"
    and n2: "''Assets'' \<notin> {''Assets:Bank:Checking''}"
    by simp_all
  have c1: "spec_descendant CHR '':'' {''Assets:Bank:Checking''} ''Assets:Bank:Checking:Sub''"
    by code_simp
  have c2: "spec_ancestor CHR '':'' {''Assets:Bank:Checking''} ''Assets'' \<and>
            \<not> (\<exists>account \<in> {''Assets:Bank:Checking''}. startswith ''Assets'' account)"
    by code_simp
  note t1 = file_step_strict_related [OF d1 ne n1, where sep = "CHR '':''"
              and e = joe_env and inp = joe_ledger and st = "([], [])"
              and root = "''/home/joe/documents/Assets/Bank/Checking/Sub''"]
  note t2 = file_step_strict_related [OF d2 ne n2, where sep = "CHR '':''"
              and e = joe_env and inp = joe_ledger and st = "([], [])"
              and root = "''/home/joe/documents/Assets''"]
  from t1 [THEN conjunct1, rule_format, OF c1]
       t2 [THEN conjunct2, THEN conjunct1, rule_format, OF c2]
  show ?thesis
    by (simp add: child_error_def parent_error_def)
qed

text \<open>
  Claim C2 says that a file in an account that is neither a strict descendant nor a
  strict ancestor of a filtered account yields nothing. The code tests
  \<^verbatim>\<open>str.startswith\<close> on the bare names and leaves the separator out, so it reports
  accounts that are not related to the filter. With the filter
  \<^verbatim>\<open>{Assets:Bank:Checking}\<close>, a file of the sibling account
  \<^verbatim>\<open>Assets:Bank:CheckingOld\<close> gets the error \<^verbatim>\<open>found in child account\<close>, and a file of
  the account \<^verbatim>\<open>Assets:Ba\<close> gets the error \<^verbatim>\<open>found in parent account\<close>; neither account
  is a strict descendant or a strict ancestor of the filtered one. The first case is
  also the third error of the finder on the whole tree.
\<close>

theorem find_documents_strict_unrelated_account:
  "dated_filename ''2013-12-31.closing.pdf'' \<and>
   ''Assets:Bank:CheckingOld'' \<notin> {''Assets:Bank:Checking''} \<and>
   \<not> spec_descendant CHR '':'' {''Assets:Bank:Checking''} ''Assets:Bank:CheckingOld'' \<and>
   \<not> spec_ancestor CHR '':'' {''Assets:Bank:Checking''} ''Assets:Bank:CheckingOld'' \<and>
   file_step joe_env joe_ledger (Some {''Assets:Bank:Checking''}) True
     ''/home/joe/documents/Assets/Bank/CheckingOld'' ''Assets:Bank:CheckingOld''
     ''2013-12-31.closing.pdf'' ([], []) =
     Inr ([], [DocumentError (Source joe_ledger 0)
                 ''Document '2013-12-31.closing.pdf' found in child account Assets:Bank:CheckingOld.''
                 None]) \<and>
   ''Assets:Ba'' \<notin> {''Assets:Bank:Checking''} \<and>
   \<not> spec_descendant CHR '':'' {''Assets:Bank:Checking''} ''Assets:Ba'' \<and>
   \<not> spec_ancestor CHR '':'' {''Assets:Bank:Checking''} ''Assets:Ba'' \<and>
   file_step joe_env joe_ledger (Some {''Assets:Bank:Checking''}) True
     ''/home/joe/documents/Assets/Ba'' ''Assets:Ba''
     ''2013-12-31.closing.pdf'' ([], []) =
     Inr ([], [DocumentError (Source joe_ledger 0)
                 ''Document '2013-12-31.closing.pdf' found in parent account Assets:Ba.''
                 None]) \<and>
   find_documents joe_env ''documents'' joe_ledger (Some {''Assets:Bank:Checking''}) True =
     Inr ([Document (Source joe_ledger 0) (Date 2014 1 15) ''Assets:Bank:Checking''
             ''/home/joe/documents/Assets/Bank/Checking/2014-01-15.statement.pdf'',
           Document (Source joe_ledger 0) (Date 2014 1 1) ''Assets:Bank:Checking''
             ''/home/joe/documents/Assets/Bank/Checking/2014-01-0123''],
          [DocumentError (Source joe_ledger 0)
             ''Document '2014-03-01.summary.pdf' found in parent account Assets.'' None,
           DocumentError (Source joe_ledger 0)
             ''Document '2014-02-10.receipt.pdf' found in child account Assets:Bank:Checking:Sub.''
             None,
           DocumentError (Source joe_ledger 0)
             ''Document '2013-12-31.closing.pdf' found in child account Assets:Bank:CheckingOld.''
             None])"
  by code_simp

end
